theory Spec2Isabelle
  imports Main "HOL-Library.Multiset"
begin

section \<open>Map groups: the data model of mapgroups/models.py\<close>

text \<open>
  The module is a set of Django models. Each model class is a record, each table a list
  of rows in storage order, and the database a record of tables that every operation
  takes and returns. A Python exception is a value: an operation returns
  \<open>Inl (e, db)\<close> when it raises \<open>e\<close>, with the database as it stands at that
  moment (the module opens no transaction, so every write made before the raise is
  kept), and \<open>Inr (v, db)\<close> when it returns \<open>v\<close>.
\<close>

subsection \<open>Rows\<close>

text \<open>\<open>django.contrib.auth.models.Group\<close>: the permission group, with its unique name.\<close>

record Group =
  group_pk :: nat
  group_name :: string

text \<open>
  \<open>django.contrib.auth.models.User\<close>, and the request's user, which is either a
  stored user or Django's \<open>AnonymousUser\<close>.
\<close>

record User =
  user_pk :: nat
  user_is_active :: bool

datatype auth_user = AnonymousUser | AuthUser User

fun is_anonymous :: "auth_user \<Rightarrow> bool" where
  "is_anonymous AnonymousUser = True"
| "is_anonymous (AuthUser u) = False"

fun is_active :: "auth_user \<Rightarrow> bool" where
  "is_active AnonymousUser = False"
| "is_active (AuthUser u) = user_is_active u"

text \<open>
  \<open>class MapGroup(models.Model)\<close>; \<open>pk\<close> is \<open>None\<close> until the first save, and
  \<open>permission_group\<close> (the foreign key's id) is \<open>None\<close> until it is assigned.
\<close>

record MapGroup =
  pk :: "nat option"
  name :: string
  slug :: string
  owner :: nat
  blurb :: string
  permission_group :: "nat option"
  is_open :: bool

text \<open>\<open>class MapGroupMember(models.Model)\<close>; \<open>date_joined\<close> is set by the insert.\<close>

record MapGroupMember =
  member_pk :: "nat option"
  user :: nat
  map_group :: nat
  date_joined :: "int option"
  is_manager :: bool
  show_real_name :: bool

text \<open>\<open>class FeaturedGroups(models.Model)\<close>.\<close>

record FeaturedGroups =
  fg_pk :: nat
  rank :: nat
  fg_map_group :: nat

text \<open>\<open>class ActivityLog(models.Model)\<close>; a timestamp is a number of seconds.\<close>

record ActivityLog =
  log_pk :: nat
  log_group :: nat
  message :: string
  date_created :: int
  admin :: bool
  associated_user :: "nat option"

subsection \<open>The database\<close>

record db =
  auth_group :: "Group list"
  mapgroup :: "MapGroup list"
  mapgroupmember :: "MapGroupMember list"
  featuredgroups :: "FeaturedGroups list"
  activitylog :: "ActivityLog list"
  user_groups :: "(nat \<times> nat) list"
  sharing_enabled :: "nat list"

datatype error =
  UniqueConstraintViolation | NotNullViolation | DoesNotExist | MultipleObjectsReturned
  | ValueError | TypeError

type_synonym 'a result = "(error \<times> db) + ('a \<times> db)"

subsection \<open>Random suffixes\<close>

text \<open>
  The random source is the sequence of its draws; taking \<open>n\<close> draws shifts it by \<open>n\<close>.
\<close>

type_synonym rng = "nat \<Rightarrow> nat"

definition allowed_chars :: string where
  "allowed_chars = ''abcdefghijklmnopqrstuvwxyzABCDEFGHIJKLMNOPQRSTUVWXYZ0123456789''"

text \<open>
  Modelled from the spec: \<open>django.utils.crypto.get_random_string\<close> is imported, not
  defined, by the module. The spec has it yield the requested number of characters "drawn
  from a cryptographically-insensitive random alphanumeric generator": each character is
  the alphabet's entry at the next draw.
\<close>

definition get_random_string :: "nat \<Rightarrow> rng \<Rightarrow> string \<times> rng" where
  "get_random_string n g =
     (map (\<lambda>i. allowed_chars ! (g i mod length allowed_chars)) [0..<n], (\<lambda>i. g (i + n)))"

subsection \<open>The permission group's name\<close>

text \<open>
  \<open>MapGroup._permission_group_name\<close>:
  \<^verbatim>\<open>name = slugify(unicode(self.name))\<close>
  \<^verbatim>\<open>name = name[:min(80 - 8, len(name))] + get_random_string(8)\<close>
  \<open>slugify\<close> is \<open>django.utils.text.slugify\<close>, imported by the module; it is a
  parameter of every function that calls it.
\<close>

definition permission_group_name :: "(string \<Rightarrow> string) \<Rightarrow> MapGroup \<Rightarrow> rng \<Rightarrow> string \<times> rng" where
  "permission_group_name slugify self g =
     (let nm = slugify (name self);
          (suffix, g') = get_random_string 8 g
      in (take (min (80 - 8) (length nm)) nm @ suffix, g'))"

subsection \<open>The store's primitives\<close>

text \<open>
  The persistence layer is Django's and the database's, not the module's: the module
  declares fields and constraints and calls \<open>save\<close>, \<open>create\<close>, \<open>get\<close> and \<open>add\<close>.
  The spec calls the layer "a transactional relational store" whose unique constraints are
  "surfaced to the caller" as UniqueConstraintViolation. In the primitives below, a save
  of an object without a primary key inserts a row under the next free key; a save of an
  object with one overwrites the row of that key, or inserts it when there is none; and a
  statement that violates a constraint changes nothing.
\<close>

text \<open>
  Modelled from the spec: the surrogate key an insert assigns, one more than the largest
  in use.
\<close>

definition next_pk :: "nat list \<Rightarrow> nat" where
  "next_pk ks = Suc (foldr max ks 0)"

text \<open>The keys of the stored groups.\<close>

definition pks :: "MapGroup list \<Rightarrow> nat list" where
  "pks rows = List.map_filter pk rows"

text \<open>
  Modelled from the spec: \<open>Group.objects.create(name=name)\<close> of the identity store,
  where a "duplicate permission-group name" is a UniqueConstraintViolation.
\<close>

definition Group_objects_create :: "string \<Rightarrow> db \<Rightarrow> Group result" where
  "Group_objects_create nm d =
     (if nm \<in> set (map group_name (auth_group d)) then Inl (UniqueConstraintViolation, d)
      else let pg = \<lparr>group_pk = next_pk (map group_pk (auth_group d)), group_name = nm\<rparr>
           in Inr (pg, d\<lparr>auth_group := auth_group d @ [pg]\<rparr>))"

text \<open>
  Modelled from the spec: the linked permission group of a group, \<open>self.permission_group\<close>,
  read from the identity store by its key.
\<close>

definition Group_get :: "nat \<Rightarrow> db \<Rightarrow> Group result" where
  "Group_get k d =
     (case find (\<lambda>r. group_pk r = k) (auth_group d) of
        None \<Rightarrow> Inl (DoesNotExist, d)
      | Some r \<Rightarrow> Inr (r, d))"

text \<open>
  Modelled from the spec: \<open>Group.save()\<close> of the identity store, with the same
  uniqueness of names.
\<close>

definition Group_save :: "Group \<Rightarrow> db \<Rightarrow> unit result" where
  "Group_save pg d =
     (if \<exists>r \<in> set (auth_group d). group_pk r \<noteq> group_pk pg \<and> group_name r = group_name pg
      then Inl (UniqueConstraintViolation, d)
      else if group_pk pg \<in> set (map group_pk (auth_group d))
      then Inr ((), d\<lparr>auth_group :=
             map (\<lambda>r. if group_pk r = group_pk pg then pg else r) (auth_group d)\<rparr>)
      else Inr ((), d\<lparr>auth_group := auth_group d @ [pg]\<rparr>))"

text \<open>
  Modelled from the spec: \<open>features.registry.enable_sharing\<close> is an external
  collaborator "with no visible return value"; the model records the call.
\<close>

definition enable_sharing :: "Group \<Rightarrow> db \<Rightarrow> db" where
  "enable_sharing pg d = d\<lparr>sharing_enabled := sharing_enabled d @ [group_pk pg]\<rparr>"

text \<open>
  Modelled from the spec: \<open>owner.groups.add(pg)\<close>, "add the owner to the
  permission-group's member set"; a set holds each pair once.
\<close>

definition groups_add :: "User \<Rightarrow> Group \<Rightarrow> db \<Rightarrow> db" where
  "groups_add u pg d =
     (if (user_pk u, group_pk pg) \<in> set (user_groups d) then d
      else d\<lparr>user_groups := user_groups d @ [(user_pk u, group_pk pg)]\<rparr>)"

text \<open>
  Modelled from the spec: the store's write of a \<open>MapGroup\<close> (\<open>models.Model.save\<close>).
  The module declares \<open>permission_group = models.ForeignKey(Group, unique=True)\<close>: the
  column is not null and unique. The saved object comes back with its key.
\<close>

definition Model_save_MapGroup :: "MapGroup \<Rightarrow> db \<Rightarrow> MapGroup result" where
  "Model_save_MapGroup self d =
     (if permission_group self = None then Inl (NotNullViolation, d)
      else if \<exists>r \<in> set (mapgroup d).
                (pk self = None \<or> pk r \<noteq> pk self) \<and> permission_group r = permission_group self
      then Inl (UniqueConstraintViolation, d)
      else case pk self of
        None \<Rightarrow>
          let s = self\<lparr>pk := Some (next_pk (pks (mapgroup d)))\<rparr>
          in Inr (s, d\<lparr>mapgroup := mapgroup d @ [s]\<rparr>)
      | Some k \<Rightarrow>
          if Some k \<in> set (map pk (mapgroup d))
          then Inr (self, d\<lparr>mapgroup :=
                 map (\<lambda>r. if pk r = Some k then self else r) (mapgroup d)\<rparr>)
          else Inr (self, d\<lparr>mapgroup := mapgroup d @ [self]\<rparr>))"

text \<open>
  Modelled from the spec: the store's write of a \<open>MapGroupMember\<close>
  (\<open>models.Model.save\<close>). The module declares \<open>Meta.unique_together\<close> as
  \<open>(('user', 'map_group',),)\<close>, a duplicate pair being the spec's
  UniqueConstraintViolation, and \<open>date_joined\<close> with \<open>auto_now_add\<close>, so an insert
  stamps it with the current time \<open>now\<close>.
\<close>

definition MapGroupMember_save :: "int \<Rightarrow> MapGroupMember \<Rightarrow> db \<Rightarrow> MapGroupMember result" where
  "MapGroupMember_save now m d =
     (if \<exists>r \<in> set (mapgroupmember d).
           (member_pk m = None \<or> member_pk r \<noteq> member_pk m)
           \<and> user r = user m \<and> map_group r = map_group m
      then Inl (UniqueConstraintViolation, d)
      else case member_pk m of
        None \<Rightarrow>
          let s = m\<lparr>member_pk := Some (next_pk (List.map_filter member_pk (mapgroupmember d))),
                    date_joined := Some now\<rparr>
          in Inr (s, d\<lparr>mapgroupmember := mapgroupmember d @ [s]\<rparr>)
      | Some k \<Rightarrow>
          if Some k \<in> set (map member_pk (mapgroupmember d))
          then Inr (m, d\<lparr>mapgroupmember :=
                 map (\<lambda>r. if member_pk r = Some k then m else r) (mapgroupmember d)\<rparr>)
          else Inr (m\<lparr>date_joined := Some now\<rparr>,
                    d\<lparr>mapgroupmember := mapgroupmember d @ [m\<lparr>date_joined := Some now\<rparr>]\<rparr>))"

subsection \<open>\<open>MapGroup\<close>'s methods\<close>

text \<open>
  \<open>MapGroup.save\<close>:
  \<^verbatim>\<open>self.slug = slugify(unicode(self.name))\<close>
  \<^verbatim>\<open>return super(MapGroup, self).save(*args, **kwargs)\<close>
\<close>

definition save :: "(string \<Rightarrow> string) \<Rightarrow> MapGroup \<Rightarrow> db \<Rightarrow> MapGroup result" where
  "save slugify self d = Model_save_MapGroup (self\<lparr>slug := slugify (name self)\<rparr>) d"

text \<open>
  \<open>MapGroup.rename\<close>:
  \<^verbatim>\<open>self.name = new_name\<close>
  \<^verbatim>\<open>self.save()\<close>
  \<^verbatim>\<open>self.permission_group.name = self._permission_group_name()\<close>
  \<^verbatim>\<open>self.permission_group.save()\<close>
  It returns the renamed object and the random source after the draw.
\<close>

definition rename :: "(string \<Rightarrow> string) \<Rightarrow> string \<Rightarrow> MapGroup \<Rightarrow> rng \<Rightarrow> db \<Rightarrow> (MapGroup \<times> rng) result" where
  "rename slugify new_name self g d =
     (case save slugify (self\<lparr>name := new_name\<rparr>) d of
        Inl e \<Rightarrow> Inl e
      | Inr (self', d1) \<Rightarrow>
          let (nm, g') = permission_group_name slugify self' g
          in case permission_group self' of
               None \<Rightarrow> Inl (DoesNotExist, d1)
             | Some k \<Rightarrow>
                 (case Group_get k d1 of
                    Inl e \<Rightarrow> Inl e
                  | Inr (pg, d2) \<Rightarrow>
                      (case Group_save (pg\<lparr>group_name := nm\<rparr>) d2 of
                         Inl e \<Rightarrow> Inl e
                       | Inr (u, d3) \<Rightarrow> Inr ((self', g'), d3))))"

text \<open>The key a lookup by \<open>user=user\<close> compares with; \<open>AnonymousUser\<close> has none.\<close>

fun auth_pk :: "auth_user \<Rightarrow> nat option" where
  "auth_pk AnonymousUser = None"
| "auth_pk (AuthUser u) = Some (user_pk u)"

text \<open>The reverse relation \<open>self.mapgroupmember_set\<close>.\<close>

definition mapgroupmember_set :: "MapGroup \<Rightarrow> db \<Rightarrow> MapGroupMember list" where
  "mapgroupmember_set self d =
     filter (\<lambda>m. Some (map_group m) = pk self) (mapgroupmember d)"

text \<open>
  \<open>MapGroup.has_member\<close>:
  \<^verbatim>\<open>if user.is_anonymous() or not user.is_active: return False\<close>
  \<^verbatim>\<open>return self.mapgroupmember_set.filter(user=user).exists()\<close>
\<close>

definition has_member :: "MapGroup \<Rightarrow> auth_user \<Rightarrow> db \<Rightarrow> bool" where
  "has_member self u d =
     (if is_anonymous u \<or> \<not> is_active u then False
      else filter (\<lambda>m. Some (user m) = auth_pk u) (mapgroupmember_set self d) \<noteq> [])"

text \<open>
  \<open>MapGroup.get_member\<close>:
  \<^verbatim>\<open>if user.is_anonymous() or not user.is_active: return None\<close>
  \<^verbatim>\<open>try: return self.mapgroupmember_set.get(user=user)\<close>
  \<^verbatim>\<open>except MapGroupMember.DoesNotExist: return None\<close>
  \<open>get\<close> raises \<open>MultipleObjectsReturned\<close> on more than one row; nothing catches it.
\<close>

definition get_member :: "MapGroup \<Rightarrow> auth_user \<Rightarrow> db \<Rightarrow> error + MapGroupMember option" where
  "get_member self u d =
     (if is_anonymous u \<or> \<not> is_active u then Inr None
      else case filter (\<lambda>m. Some (user m) = auth_pk u) (mapgroupmember_set self d) of
             [] \<Rightarrow> Inr None
           | [m] \<Rightarrow> Inr (Some m)
           | m # m' # ms \<Rightarrow> Inl MultipleObjectsReturned)"

subsection \<open>\<open>MapGroupManager.create\<close>\<close>

text \<open>
  The body of \<open>create\<close>, statement by statement. Assigning an \<open>AnonymousUser\<close> to the
  foreign key \<open>mg.owner\<close> raises \<open>ValueError\<close> before anything is written. It returns
  the group, the owner's membership and the random source after the draw.
\<close>

definition create ::
  "(string \<Rightarrow> string) \<Rightarrow> int \<Rightarrow> string \<Rightarrow> auth_user \<Rightarrow> bool \<Rightarrow> string \<Rightarrow> rng \<Rightarrow> db
     \<Rightarrow> ((MapGroup \<times> MapGroupMember) \<times> rng) result" where
  "create slugify now nm own opn blrb g d =
     (case own of
        AnonymousUser \<Rightarrow> Inl (ValueError, d)
      | AuthUser u \<Rightarrow>
          let mg = \<lparr>pk = None, name = nm, slug = [], owner = user_pk u, blurb = blrb,
                    permission_group = None, is_open = opn\<rparr>;
              (pgname, g') = permission_group_name slugify mg g
          in case Group_objects_create pgname d of
               Inl e \<Rightarrow> Inl e
             | Inr (pg, d1) \<Rightarrow>
                 let d2 = enable_sharing pg d1
                 in (case save slugify (mg\<lparr>permission_group := Some (group_pk pg)\<rparr>) d2 of
                       Inl e \<Rightarrow> Inl e
                     | Inr (mg', d3) \<Rightarrow>
                         let d4 = groups_add u pg d3
                         in (case pk mg' of
                               None \<Rightarrow> Inl (ValueError, d4)
                             | Some k \<Rightarrow>
                                 (case MapGroupMember_save now
                                         \<lparr>member_pk = None, user = user_pk u, map_group = k,
                                          date_joined = None, is_manager = True,
                                          show_real_name = False\<rparr> d4 of
                                    Inl e \<Rightarrow> Inl e
                                  | Inr (member, d5) \<Rightarrow> Inr (((mg', member), g'), d5)))))"

subsection \<open>The managers' querysets\<close>




text \<open>
  The right-hand side of a lookup is a Python value: here an integer or a datetime (a
  number of seconds, as the stored timestamps are).
\<close>

datatype lookup_value = IntValue int | DateTimeValue int

text \<open>
  Django's preparation of a lookup value for a \<open>DateTimeField\<close>, which \<open>filter\<close>
  runs when it builds the lookup, before any row is read. It is Django's, not the
  module's: a datetime is passed on; any other value goes to \<open>parse_datetime\<close>, whose
  regular-expression match raises \<open>TypeError\<close> on an integer.
\<close>

fun DateTimeField_get_prep_value :: "lookup_value \<Rightarrow> error + int" where
  "DateTimeField_get_prep_value (DateTimeValue t) = Inr t"
| "DateTimeField_get_prep_value (IntValue n) = Inl TypeError"

text \<open>\<open>qs.filter(date_created__lte=v)\<close> on a queryset of \<open>ActivityLog\<close> rows.\<close>

definition filter_date_created_lte :: "lookup_value \<Rightarrow> ActivityLog list \<Rightarrow> error + ActivityLog list" where
  "filter_date_created_lte v qs =
     (case DateTimeField_get_prep_value v of
        Inl e \<Rightarrow> Inl e
      | Inr t \<Rightarrow> Inr (filter (\<lambda>r. date_created r \<le> t) qs))"

text \<open>
  \<open>RecentActivityManager.get_queryset\<close>:
  \<^verbatim>\<open>qs = super(RecentActivityManager, self).get_queryset()\<close>
  \<^verbatim>\<open>return qs.filter(date_created__lte=7)\<close>
  The value of the lookup is the integer 7; the current time is not an argument of it.
\<close>

definition RecentActivityManager_get_queryset :: "db \<Rightarrow> error + ActivityLog list" where
  "RecentActivityManager_get_queryset d = filter_date_created_lte (IntValue 7) (activitylog d)"

subsection \<open>Reference definitions for the views\<close>



text \<open>
  The spec's recent view, "filters ActivityRecord by age": the records whose age at the
  time \<open>now\<close> lies within \<open>window\<close>.
\<close>

definition recent_by_age :: "int \<Rightarrow> int \<Rightarrow> db \<Rightarrow> ActivityLog list" where
  "recent_by_age now window d =
     filter (\<lambda>r. 0 \<le> now - date_created r \<and> now - date_created r \<le> window) (activitylog d)"

subsection \<open>Observing a result\<close>

definition final_db :: "'a result \<Rightarrow> db" where
  "final_db r = (case r of Inl (e, d) \<Rightarrow> d | Inr (v, d) \<Rightarrow> d)"


definition raised :: "'a result \<Rightarrow> error option" where
  "raised r = (case r of Inl (e, d) \<Rightarrow> Some e | Inr (v, d) \<Rightarrow> None)"

text \<open>\<open>has_member(group, owner)\<close> asked of what \<open>create\<close> returned and left.\<close>

definition has_member_after_create ::
  "auth_user \<Rightarrow> ((MapGroup \<times> MapGroupMember) \<times> rng) result \<Rightarrow> bool option" where
  "has_member_after_create u r =
     (case r of Inl (e, d) \<Rightarrow> None | Inr (((mg, m), g), d) \<Rightarrow> Some (has_member mg u d))"

definition manager_after_create ::
  "((MapGroup \<times> MapGroupMember) \<times> rng) result \<Rightarrow> bool option" where
  "manager_after_create r =
     (case r of Inl (e, d) \<Rightarrow> None | Inr (((mg, m), g), d) \<Rightarrow> Some (is_manager m))"

subsection \<open>An instance of \<open>slugify\<close>\<close>

text \<open>
  Modelled from the spec: \<open>django.utils.text.slugify\<close> is imported, not defined, by
  the module. The spec describes it as "strip non-alphanumerics, collapse
  whitespace/punctuation to single hyphens, trim" and lowercase; this is that function on
  ASCII text: keep letters, digits, underscores, hyphens and white space, trim, lowercase,
  and turn every run of hyphens and white space into one hyphen. It instantiates the
  parameter \<open>slugify\<close> at concrete inputs.
\<close>

definition is_word_char :: "char \<Rightarrow> bool" where
  "is_word_char c =
     (let n = (of_char c :: nat)
      in (48 \<le> n \<and> n \<le> 57) \<or> (65 \<le> n \<and> n \<le> 90) \<or> (97 \<le> n \<and> n \<le> 122) \<or> n = 95)"

definition is_space_char :: "char \<Rightarrow> bool" where
  "is_space_char c = (let n = (of_char c :: nat) in (9 \<le> n \<and> n \<le> 13) \<or> n = 32)"

definition lower_char :: "char \<Rightarrow> char" where
  "lower_char c =
     (let n = (of_char c :: nat) in if 65 \<le> n \<and> n \<le> 90 then char_of (n + 32) else c)"

definition strip :: "string \<Rightarrow> string" where
  "strip s = rev (dropWhile is_space_char (rev (dropWhile is_space_char s)))"

text \<open>\<open>hyphenate in_run s\<close>: \<open>in_run\<close> says that the run's hyphen is already written.\<close>

fun hyphenate :: "bool \<Rightarrow> string \<Rightarrow> string" where
  "hyphenate in_run [] = []"
| "hyphenate in_run (c # cs) =
     (if c = CHR ''-'' \<or> is_space_char c
      then (if in_run then hyphenate True cs else CHR ''-'' # hyphenate True cs)
      else c # hyphenate False cs)"

definition slugify_ascii :: "string \<Rightarrow> string" where
  "slugify_ascii s =
     hyphenate False (map lower_char (strip
       (filter (\<lambda>c. is_word_char c \<or> is_space_char c \<or> c = CHR ''-'') s)))"

subsection \<open>The declared constraints as predicates on a database\<close>

text \<open>
  \<open>MapGroupMember.Meta.unique_together\<close>, with the primary key every stored row has.
\<close>

definition members_unique :: "db \<Rightarrow> bool" where
  "members_unique d =
     (distinct (map member_pk (mapgroupmember d))
      \<and> None \<notin> set (map member_pk (mapgroupmember d))
      \<and> distinct (map (\<lambda>m. (user m, map_group m)) (mapgroupmember d)))"

text \<open>
  The foreign keys: a stored group's permission group is a stored \<open>Group\<close>, a stored
  membership's group is a stored \<open>MapGroup\<close>.
\<close>

definition foreign_keys :: "db \<Rightarrow> bool" where
  "foreign_keys d =
     ((\<forall>r \<in> set (mapgroup d). \<exists>k \<in> set (map group_pk (auth_group d)). permission_group r = Some k)
      \<and> (\<forall>m \<in> set (mapgroupmember d). map_group m \<in> set (pks (mapgroup d))))"

subsection \<open>Concrete data\<close>

definition rng0 :: rng where
  "rng0 = (\<lambda>i. 0)"

definition alice :: User where
  "alice = \<lparr>user_pk = 1, user_is_active = True\<rparr>"

definition bob :: User where
  "bob = \<lparr>user_pk = 2, user_is_active = False\<rparr>"

definition group_a :: MapGroup where
  "group_a = \<lparr>pk = Some 1, name = ''A'', slug = ''a'', owner = 1, blurb = [],
               permission_group = Some 1, is_open = False\<rparr>"

definition group_b :: MapGroup where
  "group_b = \<lparr>pk = Some 2, name = ''B'', slug = ''b'', owner = 1, blurb = [],
               permission_group = Some 2, is_open = True\<rparr>"

definition group_c :: MapGroup where
  "group_c = \<lparr>pk = Some 3, name = ''C'', slug = ''c'', owner = 2, blurb = [],
               permission_group = Some 3, is_open = False\<rparr>"

definition group_d :: MapGroup where
  "group_d = \<lparr>pk = Some 4, name = ''D'', slug = ''d'', owner = 2, blurb = [],
               permission_group = Some 4, is_open = False\<rparr>"

definition member_alice_a :: MapGroupMember where
  "member_alice_a = \<lparr>member_pk = Some 1, user = 1, map_group = 1, date_joined = Some 100,
                      is_manager = True, show_real_name = False\<rparr>"

definition member_bob_a :: MapGroupMember where
  "member_bob_a = \<lparr>member_pk = Some 2, user = 2, map_group = 1, date_joined = Some 200,
                    is_manager = False, show_real_name = False\<rparr>"

definition member_alice_b :: MapGroupMember where
  "member_alice_b = \<lparr>member_pk = None, user = 1, map_group = 2, date_joined = None,
                      is_manager = False, show_real_name = False\<rparr>"

text \<open>
  Four groups, each with its permission group; A, B and C are featured with the ranks
  3, 1 and 2, D is not; alice and bob (who is inactive) are members of A.
\<close>

definition sample_db :: db where
  "sample_db =
     \<lparr>auth_group = [\<lparr>group_pk = 1, group_name = ''aaaaaaaaa''\<rparr>,
                     \<lparr>group_pk = 2, group_name = ''baaaaaaaa''\<rparr>,
                     \<lparr>group_pk = 3, group_name = ''cXk29dLmQ''\<rparr>,
                     \<lparr>group_pk = 4, group_name = ''dP07ssRtw''\<rparr>],
      mapgroup = [group_a, group_b, group_c, group_d],
      mapgroupmember = [member_alice_a, member_bob_a],
      featuredgroups = [\<lparr>fg_pk = 1, rank = 3, fg_map_group = 1\<rparr>,
                        \<lparr>fg_pk = 2, rank = 1, fg_map_group = 2\<rparr>,
                        \<lparr>fg_pk = 3, rank = 2, fg_map_group = 3\<rparr>],
      activitylog = [\<lparr>log_pk = 1, log_group = 1, message = ''created'',
                       date_created = 1446595200, admin = False, associated_user = Some 1\<rparr>,
                     \<lparr>log_pk = 2, log_group = 1, message = ''epoch'',
                       date_created = 5, admin = False, associated_user = None\<rparr>],
      user_groups = [(1, 1), (1, 2), (2, 3), (2, 4)],
      sharing_enabled = [1, 2, 3, 4]\<rparr>"

section \<open>Properties\<close>

lemma allowed_chars_length: "length allowed_chars = 62"
  by (simp add: allowed_chars_def)

lemma get_random_string_length: "length (fst (get_random_string n g)) = n"
  by (simp add: get_random_string_def)

lemma get_random_string_alnum:
  "set (fst (get_random_string n g)) \<subseteq> set allowed_chars"
proof -
  have "allowed_chars ! (g i mod length allowed_chars) \<in> set allowed_chars" for i
    by (rule nth_mem) (simp add: allowed_chars_length)
  then show ?thesis
    by (auto simp: get_random_string_def)
qed

lemma take_min_length: "take (min n (length xs)) xs = take n xs"
  by (cases "n \<le> length xs") (simp_all add: min_def)

lemma permission_group_name_eq:
  "fst (permission_group_name slugify self g) =
     take 72 (slugify (name self)) @ fst (get_random_string 8 g)"
  by (simp add: permission_group_name_def Let_def take_min_length split: prod.splits)

text \<open>
  Claim C3. For every display name, the permission-group name is the slugified name cut
  to at most 72 characters followed by 8 characters of the random alphanumeric
  alphabet, so it is never longer than 80 characters.
\<close>

theorem permission_group_name_bounded:
  "fst (permission_group_name slugify self g) =
       take 72 (slugify (name self)) @ fst (get_random_string 8 g)
   \<and> length (take 72 (slugify (name self))) \<le> 72
   \<and> length (fst (get_random_string 8 g)) = 8
   \<and> set (fst (get_random_string 8 g)) \<subseteq> set allowed_chars
   \<and> length (fst (permission_group_name slugify self g)) \<le> 80"
proof -
  have e: "fst (permission_group_name slugify self g) =
       take 72 (slugify (name self)) @ fst (get_random_string 8 g)"
    by (rule permission_group_name_eq)
  have l: "length (fst (get_random_string 8 g)) = 8"
    by (rule get_random_string_length)
  have a: "set (fst (get_random_string 8 g)) \<subseteq> set allowed_chars"
    by (rule get_random_string_alnum)
  have b: "length (fst (permission_group_name slugify self g)) \<le> 80"
    unfolding e using l by simp
  show ?thesis using e l a b by simp
qed

text \<open>A display name of 500 characters.\<close>

theorem permission_group_name_bounded_witness:
  "length (name (group_a\<lparr>name := replicate 500 (CHR ''x'')\<rparr>)) = 500
   \<and> length (fst (permission_group_name slugify_ascii
                   (group_a\<lparr>name := replicate 500 (CHR ''x'')\<rparr>) rng0)) \<le> 80"
  using permission_group_name_bounded
          [of slugify_ascii "group_a\<lparr>name := replicate 500 (CHR ''x'')\<rparr>" rng0]
  by simp

subsection \<open>Membership lookups\<close>

lemma filter_user_group_conv:
  "(filter (\<lambda>m. Some (user m) = auth_pk u) (mapgroupmember_set self d) \<noteq> []) =
     (\<exists>m \<in> set (mapgroupmember d). Some (map_group m) = pk self \<and> Some (user m) = auth_pk u)"
  by (auto simp: mapgroupmember_set_def filter_empty_conv)

text \<open>
  Claim C7. For an anonymous or inactive user \<open>has_member\<close> is false and
  \<open>get_member\<close> is none, whatever rows the membership table holds; for an active,
  non-anonymous user \<open>has_member\<close> is true exactly when the table holds a row for the
  pair.
\<close>

theorem has_member_guard:
  "(is_anonymous u \<or> \<not> is_active u \<longrightarrow>
       has_member self u d = False \<and> get_member self u d = Inr None)
   \<and> (\<not> is_anonymous u \<and> is_active u \<longrightarrow>
       has_member self u d =
         (\<exists>m \<in> set (mapgroupmember d). Some (map_group m) = pk self \<and> Some (user m) = auth_pk u))"
  using filter_user_group_conv [of u self d]
  by (simp add: has_member_def get_member_def)

text \<open>
  In \<open>sample_db\<close> the inactive bob has a membership row for group A and is still not a
  member; the active alice is a member of A and not of B.
\<close>

theorem has_member_guard_witness:
  "has_member group_a AnonymousUser sample_db = False
   \<and> get_member group_a AnonymousUser sample_db = Inr None
   \<and> (\<exists>m \<in> set (mapgroupmember sample_db).
         Some (map_group m) = pk group_a \<and> Some (user m) = auth_pk (AuthUser bob))
   \<and> has_member group_a (AuthUser bob) sample_db = False
   \<and> get_member group_a (AuthUser bob) sample_db = Inr None
   \<and> has_member group_a (AuthUser alice) sample_db = True
   \<and> has_member group_b (AuthUser alice) sample_db = False"
  using has_member_guard [of AnonymousUser group_a sample_db]
    has_member_guard [of "AuthUser bob" group_a sample_db]
    has_member_guard [of "AuthUser alice" group_a sample_db]
    has_member_guard [of "AuthUser alice" group_b sample_db]
  by (simp add: sample_db_def group_a_def group_b_def alice_def bob_def
        member_alice_a_def member_bob_a_def)

lemma filter_le_one:
  "distinct (map f xs) \<Longrightarrow> \<forall>x \<in> set xs. P x \<longrightarrow> f x = c \<Longrightarrow> length (filter P xs) \<le> 1"
proof (induction xs)
  case Nil
  then show ?case by simp
next
  case (Cons x xs)
  show ?case
  proof (cases "P x")
    case True
    then have "f x = c" using Cons.prems by simp
    then have "\<forall>y \<in> set xs. \<not> P y" using Cons.prems by (auto simp: image_iff)
    then have "filter P xs = []" by (simp add: filter_empty_conv)
    then show ?thesis using True by simp
  next
    case False
    then show ?thesis using Cons by simp
  qed
qed

lemma member_lookup_le_one:
  assumes "members_unique d"
  shows "length (filter (\<lambda>m. Some (user m) = auth_pk u) (mapgroupmember_set self d)) \<le> 1"
proof (cases "pk self")
  case None
  then show ?thesis by (simp add: mapgroupmember_set_def)
next
  case (Some k)
  show ?thesis
  proof (cases "auth_pk u")
    case None
    then show ?thesis by simp
  next
    case (Some uid)
    have d: "distinct (map (\<lambda>m. (user m, map_group m)) (mapgroupmember d))"
      using assms by (simp add: members_unique_def)
    have "length (filter (\<lambda>m. Some (map_group m) = pk self \<and> Some (user m) = auth_pk u)
                    (mapgroupmember d)) \<le> 1"
      by (rule filter_le_one [OF d, where c = "(uid, k)"]) (use Some \<open>pk self = Some k\<close> in auto)
    then show ?thesis
      by (simp add: mapgroupmember_set_def)
  qed
qed

lemma sample_db_members_unique: "members_unique sample_db"
  by (simp add: members_unique_def sample_db_def member_alice_a_def member_bob_a_def)

text \<open>
  Claim C9. In a membership table that satisfies its declared uniqueness,
  \<open>has_member\<close> is true exactly when \<open>get_member\<close> returns a record and false exactly
  when it returns none.
\<close>

theorem has_member_iff_get_member:
  assumes "members_unique d"
  shows "(has_member self u d \<longleftrightarrow> (\<exists>m. get_member self u d = Inr (Some m)))
       \<and> (\<not> has_member self u d \<longleftrightarrow> get_member self u d = Inr None)"
proof -
  let ?xs = "filter (\<lambda>m. Some (user m) = auth_pk u) (mapgroupmember_set self d)"
  have "length ?xs \<le> 1" using assms by (rule member_lookup_le_one)
  then consider "?xs = []" | m where "?xs = [m]"
    by (cases ?xs) (auto simp: Suc_le_eq)
  then show ?thesis
    by cases (simp_all add: has_member_def get_member_def)
qed

theorem has_member_iff_get_member_witness:
  "members_unique sample_db
   \<and> has_member group_a (AuthUser alice) sample_db
   \<and> get_member group_a (AuthUser alice) sample_db = Inr (Some member_alice_a)
   \<and> \<not> has_member group_b (AuthUser alice) sample_db
   \<and> get_member group_b (AuthUser alice) sample_db = Inr None"
  using sample_db_members_unique
    has_member_iff_get_member [OF sample_db_members_unique, of group_a "AuthUser alice"]
    has_member_iff_get_member [OF sample_db_members_unique, of group_b "AuthUser alice"]
  by (simp add: has_member_def get_member_def mapgroupmember_set_def sample_db_def
        group_a_def group_b_def alice_def member_alice_a_def member_bob_a_def)

subsection \<open>Keys and uniqueness\<close>

lemma foldr_max_ge: "k \<in> set ks \<Longrightarrow> k \<le> foldr max ks (0::nat)"
  by (induction ks) (auto simp: max_def)

lemma next_pk_fresh: "next_pk ks \<notin> set ks"
  using foldr_max_ge [of "next_pk ks" ks] by (auto simp: next_pk_def)

lemma set_map_filter_Some: "k \<in> set (List.map_filter f xs) \<longleftrightarrow> Some k \<in> set (map f xs)"
  by (induction xs) (auto split: option.splits)

lemma next_pk_map_filter_fresh: "Some (next_pk (List.map_filter f xs)) \<notin> set (map f xs)"
  using next_pk_fresh [of "List.map_filter f xs"] set_map_filter_Some [of "next_pk (List.map_filter f xs)" f xs]
  by simp

lemma distinct_map_replace:
  assumes "distinct (map kf xs)" and "distinct (map pr xs)"
    and "\<forall>r \<in> set xs. kf r \<noteq> kf m \<longrightarrow> pr r \<noteq> pr m"
  shows "distinct (map pr (map (\<lambda>r. if kf r = kf m then m else r) xs))"
  using assms
proof (induction xs)
  case Nil
  then show ?case by simp
next
  case (Cons x xs)
  have ih: "distinct (map pr (map (\<lambda>r. if kf r = kf m then m else r) xs))"
    using Cons by simp
  show ?case
  proof (cases "kf x = kf m")
    case True
    then have "\<forall>r \<in> set xs. kf r \<noteq> kf m" using Cons.prems(1) by (auto simp: image_iff)
    then have same: "map (\<lambda>r. if kf r = kf m then m else r) xs = xs"
      by (simp add: map_idI)
    have "pr m \<notin> pr ` set xs" using \<open>\<forall>r \<in> set xs. kf r \<noteq> kf m\<close> Cons.prems(3) by auto
    then show ?thesis using True same Cons.prems(2) by simp
  next
    case False
    have "pr x \<notin> pr ` set xs" using Cons.prems(2) by simp
    moreover have "pr x \<noteq> pr m" using False Cons.prems(3) by simp
    ultimately have "pr x \<notin> set (map pr (map (\<lambda>r. if kf r = kf m then m else r) xs))"
    proof -
      assume a: "pr x \<notin> pr ` set xs" and b: "pr x \<noteq> pr m"
      show ?thesis
      proof
        assume "pr x \<in> set (map pr (map (\<lambda>r. if kf r = kf m then m else r) xs))"
        then obtain r where r: "r \<in> set xs" "pr x = pr (if kf r = kf m then m else r)"
          by auto
        show False
        proof (cases "kf r = kf m")
          case True
          then show False using r(2) b by simp
        next
          case False
          then show False using r a by auto
        qed
      qed
    qed
    then show ?thesis using False ih by simp
  qed
qed

lemma map_key_replace:
  "kf m = k \<Longrightarrow> map kf (map (\<lambda>r. if kf r = k then m else r) xs) = map kf xs"
  by (induction xs) auto

lemma members_unique_save:
  assumes wf: "members_unique d" and ok: "MapGroupMember_save now m d = Inr (m', d')"
  shows "members_unique d'"
proof -
  let ?rows = "mapgroupmember d"
  let ?pr = "\<lambda>m::MapGroupMember. (user m, map_group m)"
  have dk: "distinct (map member_pk ?rows)" and nn: "None \<notin> set (map member_pk ?rows)"
    and dp: "distinct (map ?pr ?rows)"
    using wf by (simp_all add: members_unique_def)
  have nov: "\<forall>r \<in> set ?rows. (member_pk m = None \<or> member_pk r \<noteq> member_pk m) \<longrightarrow> ?pr r \<noteq> ?pr m"
    using ok by (auto simp: MapGroupMember_save_def split: if_splits)
  show ?thesis
  proof (cases "member_pk m")
    case None
    let ?s = "m\<lparr>member_pk := Some (next_pk (List.map_filter member_pk ?rows)), date_joined := Some now\<rparr>"
    have "d' = d\<lparr>mapgroupmember := ?rows @ [?s]\<rparr>"
      using ok None by (auto simp: MapGroupMember_save_def Let_def split: if_splits)
    then have d': "mapgroupmember d' = ?rows @ [?s]"
      by simp
    have "?pr m \<notin> set (map ?pr ?rows)" using nov None by auto
    moreover have "Some (next_pk (List.map_filter member_pk ?rows)) \<notin> set (map member_pk ?rows)"
      by (rule next_pk_map_filter_fresh)
    ultimately show ?thesis using dk nn dp d'
      by (simp add: members_unique_def)
  next
    case (Some k)
    show ?thesis
    proof (cases "Some k \<in> set (map member_pk ?rows)")
      case True
      have "d' = d\<lparr>mapgroupmember := map (\<lambda>r. if member_pk r = member_pk m then m else r) ?rows\<rparr>"
        using ok Some True by (auto simp: MapGroupMember_save_def split: if_splits)
      then have d': "mapgroupmember d' = map (\<lambda>r. if member_pk r = member_pk m then m else r) ?rows"
        by simp
      have keys: "map member_pk (mapgroupmember d') = map member_pk ?rows"
        unfolding d' by (rule map_key_replace) simp
      have "distinct (map ?pr (mapgroupmember d'))"
        unfolding d' using dk dp nov by (intro distinct_map_replace) auto
      then show ?thesis using keys dk nn by (simp add: members_unique_def)
    next
      case False
      have "d' = d\<lparr>mapgroupmember := ?rows @ [m\<lparr>date_joined := Some now\<rparr>]\<rparr>"
        using ok Some False by (auto simp: MapGroupMember_save_def split: if_splits)
      then have d': "mapgroupmember d' = ?rows @ [m\<lparr>date_joined := Some now\<rparr>]"
        by simp
      have "?pr m \<notin> set (map ?pr ?rows)"
      proof
        assume "?pr m \<in> set (map ?pr ?rows)"
        then obtain r where r: "r \<in> set ?rows" "?pr r = ?pr m" by auto
        then have "member_pk r = member_pk m" using nov by auto
        then show False using r(1) False Some by (auto simp: image_iff)
      qed
      then show ?thesis using dk nn dp d' False Some by (simp add: members_unique_def)
    qed
  qed
qed

text \<open>
  Claim C8. A membership table that starts with at most one row for each (user, group)
  pair keeps that through every save that succeeds; a save of a new membership for a pair
  that already has a row fails with UniqueConstraintViolation and leaves the database as
  it was; and such a table holds at most one row for each pair.
\<close>

theorem membership_unique:
  "(members_unique d \<and> MapGroupMember_save now m d = Inr (m', d') \<longrightarrow> members_unique d')
   \<and> (member_pk m = None
        \<and> (\<exists>r \<in> set (mapgroupmember d). user r = user m \<and> map_group r = map_group m)
      \<longrightarrow> MapGroupMember_save now m d = Inl (UniqueConstraintViolation, d))
   \<and> (members_unique d \<longrightarrow>
        (\<forall>u g. length (filter (\<lambda>r. user r = u \<and> map_group r = g) (mapgroupmember d)) \<le> 1))"
proof -
  have a: "members_unique d \<and> MapGroupMember_save now m d = Inr (m', d') \<longrightarrow> members_unique d'"
    using members_unique_save by blast
  have b: "member_pk m = None
        \<and> (\<exists>r \<in> set (mapgroupmember d). user r = user m \<and> map_group r = map_group m)
      \<longrightarrow> MapGroupMember_save now m d = Inl (UniqueConstraintViolation, d)"
    by (auto simp: MapGroupMember_save_def)
  have c: "members_unique d \<longrightarrow>
        (\<forall>u g. length (filter (\<lambda>r. user r = u \<and> map_group r = g) (mapgroupmember d)) \<le> 1)"
  proof (intro impI allI)
    fix u g assume "members_unique d"
    then have "distinct (map (\<lambda>m. (user m, map_group m)) (mapgroupmember d))"
      by (simp add: members_unique_def)
    then show "length (filter (\<lambda>r. user r = u \<and> map_group r = g) (mapgroupmember d)) \<le> 1"
      by (rule filter_le_one [where c = "(u, g)"]) auto
  qed
  show ?thesis using a b c by blast
qed


lemma save_member_alice_b:
  "MapGroupMember_save 300 member_alice_b sample_db =
     Inr (member_alice_b\<lparr>member_pk := Some 3, date_joined := Some 300\<rparr>,
          sample_db\<lparr>mapgroupmember := [member_alice_a, member_bob_a,
             member_alice_b\<lparr>member_pk := Some 3, date_joined := Some 300\<rparr>]\<rparr>)"
  by (simp add: MapGroupMember_save_def sample_db_def member_alice_a_def member_bob_a_def
        member_alice_b_def next_pk_def Let_def numeral_3_eq_3)

theorem membership_unique_witness:
  "members_unique sample_db
   \<and> MapGroupMember_save 300 member_alice_b sample_db =
       Inr (member_alice_b\<lparr>member_pk := Some 3, date_joined := Some 300\<rparr>,
            sample_db\<lparr>mapgroupmember := [member_alice_a, member_bob_a,
               member_alice_b\<lparr>member_pk := Some 3, date_joined := Some 300\<rparr>]\<rparr>)
   \<and> members_unique (sample_db\<lparr>mapgroupmember := [member_alice_a, member_bob_a,
               member_alice_b\<lparr>member_pk := Some 3, date_joined := Some 300\<rparr>]\<rparr>)
   \<and> member_pk (member_alice_b\<lparr>map_group := 1\<rparr>) = None
   \<and> (\<exists>r \<in> set (mapgroupmember sample_db).
         user r = user (member_alice_b\<lparr>map_group := 1\<rparr>)
         \<and> map_group r = map_group (member_alice_b\<lparr>map_group := 1\<rparr>))
   \<and> MapGroupMember_save 300 (member_alice_b\<lparr>map_group := 1\<rparr>) sample_db =
       Inl (UniqueConstraintViolation, sample_db)
   \<and> length (filter (\<lambda>r. user r = 1 \<and> map_group r = 1) (mapgroupmember sample_db)) \<le> 1"
proof -
  have h: "member_pk (member_alice_b\<lparr>map_group := 1\<rparr>) = None
     \<and> (\<exists>r \<in> set (mapgroupmember sample_db).
         user r = user (member_alice_b\<lparr>map_group := 1\<rparr>)
         \<and> map_group r = map_group (member_alice_b\<lparr>map_group := 1\<rparr>))"
    by (simp add: sample_db_def member_alice_a_def member_bob_a_def member_alice_b_def)
  show ?thesis
    using sample_db_members_unique save_member_alice_b h
      membership_unique [of sample_db 300 member_alice_b
        "member_alice_b\<lparr>member_pk := Some 3, date_joined := Some 300\<rparr>"
        "sample_db\<lparr>mapgroupmember := [member_alice_a, member_bob_a,
               member_alice_b\<lparr>member_pk := Some 3, date_joined := Some 300\<rparr>]\<rparr>"]
      membership_unique [of sample_db 300 "member_alice_b\<lparr>map_group := 1\<rparr>"]
    by blast
qed

subsection \<open>Featured and recent views\<close>








lemma recent_view_raises: "RecentActivityManager_get_queryset d = Inl TypeError"
  by (simp add: RecentActivityManager_get_queryset_def filter_date_created_lte_def)

lemma filter_date_created_lte_datetime:
  "filter_date_created_lte (DateTimeValue t) qs = Inr (filter (\<lambda>r. date_created r \<le> t) qs)"
  by (simp add: filter_date_created_lte_def)

text \<open>
  Claim C2 does not hold of the code. With one record created at 1446595200 and one at
  5, at the time 1446595260 and with a window of seven days (604800 seconds), the
  records within the window are the first one only; the code's recent view raises
  \<open>TypeError\<close> while it builds the lookup and returns no records, as it does for the
  empty table and for every other one.
\<close>

theorem recent_raises_type_error:
  "RecentActivityManager_get_queryset sample_db = Inl TypeError
   \<and> RecentActivityManager_get_queryset
        (sample_db\<lparr>activitylog := []\<rparr>) = Inl TypeError
   \<and> recent_by_age 1446595260 604800 sample_db =
     [\<lparr>log_pk = 1, log_group = 1, message = ''created'', date_created = 1446595200,
       admin = False, associated_user = Some 1\<rparr>]"
  by (simp add: recent_view_raises recent_by_age_def sample_db_def)

subsection \<open>What each write does\<close>

lemma Group_objects_create_ok:
  assumes "nm \<notin> set (map group_name (auth_group d))"
  shows "Group_objects_create nm d =
     Inr (\<lparr>group_pk = next_pk (map group_pk (auth_group d)), group_name = nm\<rparr>,
          d\<lparr>auth_group := auth_group d @
             [\<lparr>group_pk = next_pk (map group_pk (auth_group d)), group_name = nm\<rparr>]\<rparr>)"
  using assms by (simp add: Group_objects_create_def Let_def)


lemma save_insert:
  assumes "permission_group self = Some p" and "pk self = None"
    and "\<forall>r \<in> set (mapgroup d). permission_group r \<noteq> Some p"
  shows "save slugify self d =
     Inr (self\<lparr>pk := Some (next_pk (pks (mapgroup d))), slug := slugify (name self)\<rparr>,
          d\<lparr>mapgroup := mapgroup d @
             [self\<lparr>pk := Some (next_pk (pks (mapgroup d))), slug := slugify (name self)\<rparr>]\<rparr>)"
  using assms by (simp add: save_def Model_save_MapGroup_def Let_def)

lemma save_update:
  assumes "permission_group self = Some p" and "pk self = Some k"
    and "Some k \<in> set (map pk (mapgroup d))"
    and "\<forall>r \<in> set (mapgroup d). pk r \<noteq> Some k \<longrightarrow> permission_group r \<noteq> Some p"
  shows "save slugify self d =
     Inr (self\<lparr>slug := slugify (name self)\<rparr>,
          d\<lparr>mapgroup := map (\<lambda>r. if pk r = Some k then self\<lparr>slug := slugify (name self)\<rparr> else r)
                            (mapgroup d)\<rparr>)"
  using assms by (auto simp: save_def Model_save_MapGroup_def)


lemma MapGroupMember_save_insert:
  assumes "member_pk m = None"
    and "\<forall>r \<in> set (mapgroupmember d). \<not> (user r = user m \<and> map_group r = map_group m)"
  shows "MapGroupMember_save now m d =
     Inr (m\<lparr>member_pk := Some (next_pk (List.map_filter member_pk (mapgroupmember d))),
            date_joined := Some now\<rparr>,
          d\<lparr>mapgroupmember := mapgroupmember d @
            [m\<lparr>member_pk := Some (next_pk (List.map_filter member_pk (mapgroupmember d))),
               date_joined := Some now\<rparr>]\<rparr>)"
  using assms by (auto simp: MapGroupMember_save_def Let_def)

lemma Group_get_cases:
  "Group_get p d = Inl (DoesNotExist, d)
   \<or> (\<exists>pg. Group_get p d = Inr (pg, d) \<and> group_pk pg = p \<and> pg \<in> set (auth_group d))"
proof (cases "find (\<lambda>r. group_pk r = p) (auth_group d)")
  case None
  then show ?thesis by (simp add: Group_get_def)
next
  case (Some pg)
  then have "group_pk pg = p \<and> pg \<in> set (auth_group d)"
    by (auto simp: find_Some_iff)
  then show ?thesis using Some by (simp add: Group_get_def)
qed

lemma Group_get_ok:
  assumes "p \<in> set (map group_pk (auth_group d))"
  shows "\<exists>pg. Group_get p d = Inr (pg, d) \<and> group_pk pg = p \<and> pg \<in> set (auth_group d)"
proof -
  have "find (\<lambda>r. group_pk r = p) (auth_group d) \<noteq> None"
    using assms by (auto simp: find_None_iff)
  then have "Group_get p d \<noteq> Inl (DoesNotExist, d)"
    by (auto simp: Group_get_def split: option.splits)
  then show ?thesis using Group_get_cases [of p d] by blast
qed

lemma Group_save_cases:
  assumes "pg \<in> set (auth_group d)"
  shows "Group_save (pg\<lparr>group_name := nm\<rparr>) d = Inl (UniqueConstraintViolation, d)
     \<or> Group_save (pg\<lparr>group_name := nm\<rparr>) d =
         Inr ((), d\<lparr>auth_group :=
            map (\<lambda>r. if group_pk r = group_pk pg then r\<lparr>group_name := nm\<rparr> else r) (auth_group d)\<rparr>)"
proof -
  have eq: "(\<lambda>r. if group_pk r = group_pk pg then pg\<lparr>group_name := nm\<rparr> else r) =
        (\<lambda>r. if group_pk r = group_pk pg then r\<lparr>group_name := nm\<rparr> else r)"
    by (rule ext) simp
  have "group_pk pg \<in> set (map group_pk (auth_group d))" using assms by simp
  then show ?thesis
    unfolding Group_save_def using eq by (simp del: set_map)
qed

lemma Group_save_ok:
  assumes "pg \<in> set (auth_group d)"
    and "\<forall>r \<in> set (auth_group d). group_pk r \<noteq> group_pk pg \<longrightarrow> group_name r \<noteq> nm"
  shows "Group_save (pg\<lparr>group_name := nm\<rparr>) d =
         Inr ((), d\<lparr>auth_group :=
            map (\<lambda>r. if group_pk r = group_pk pg then r\<lparr>group_name := nm\<rparr> else r) (auth_group d)\<rparr>)"
proof -
  have "Group_save (pg\<lparr>group_name := nm\<rparr>) d \<noteq> Inl (UniqueConstraintViolation, d)"
    using assms by (auto simp: Group_save_def)
  then show ?thesis using Group_save_cases [OF assms(1), of nm] by blast
qed


lemma permission_group_name_pair:
  "permission_group_name slugify self g =
     (take 72 (slugify (name self)) @ fst (get_random_string 8 g), snd (get_random_string 8 g))"
  by (simp add: permission_group_name_def Let_def take_min_length split: prod.splits)







lemma rename_ok:
  assumes k: "pk self = Some k" and p: "permission_group self = Some p"
    and stored: "Some k \<in> set (map pk (mapgroup d))"
    and uniq: "\<forall>r \<in> set (mapgroup d). pk r \<noteq> Some k \<longrightarrow> permission_group r \<noteq> Some p"
    and pg: "p \<in> set (map group_pk (auth_group d))"
    and free: "\<forall>r \<in> set (auth_group d). group_pk r \<noteq> p \<longrightarrow>
                group_name r \<noteq> take 72 (slugify new_name) @ fst (get_random_string 8 g)"
  shows "rename slugify new_name self g d =
     Inr ((self\<lparr>name := new_name, slug := slugify new_name\<rparr>, snd (get_random_string 8 g)),
          d\<lparr>mapgroup :=
               map (\<lambda>r. if pk r = Some k then self\<lparr>name := new_name, slug := slugify new_name\<rparr>
                         else r) (mapgroup d),
            auth_group :=
               map (\<lambda>r. if group_pk r = p
                         then r\<lparr>group_name :=
                                take 72 (slugify new_name) @ fst (get_random_string 8 g)\<rparr>
                         else r) (auth_group d)\<rparr>)"
proof -
  let ?nm = "take 72 (slugify new_name) @ fst (get_random_string 8 g)"
  let ?s = "self\<lparr>name := new_name, slug := slugify new_name\<rparr>"
  let ?d1 = "d\<lparr>mapgroup := map (\<lambda>r. if pk r = Some k then ?s else r) (mapgroup d)\<rparr>"
  have sv: "save slugify (self\<lparr>name := new_name\<rparr>) d = Inr (?s, ?d1)"
    using save_update [of "self\<lparr>name := new_name\<rparr>" p k d slugify] k p stored uniq by simp
  have nm: "permission_group_name slugify ?s g = (?nm, snd (get_random_string 8 g))"
    by (simp add: permission_group_name_pair)
  obtain r where r: "Group_get p ?d1 = Inr (r, ?d1)" "group_pk r = p" "r \<in> set (auth_group ?d1)"
    using Group_get_ok [of p ?d1] pg by auto
  have "Group_save (r\<lparr>group_name := ?nm\<rparr>) ?d1 =
         Inr ((), ?d1\<lparr>auth_group :=
            map (\<lambda>x. if group_pk x = group_pk r then x\<lparr>group_name := ?nm\<rparr> else x)
              (auth_group ?d1)\<rparr>)"
    by (rule Group_save_ok [OF r(3)]) (use free r(2) in simp)
  then show ?thesis
    by (simp add: rename_def sv nm p r)
qed

lemma create_ok:
  assumes fk: "foreign_keys d"
    and free: "take 72 (slugify nm) @ fst (get_random_string 8 g) \<notin> set (map group_name (auth_group d))"
  shows "\<exists>mg member d'.
      create slugify now nm (AuthUser u) opn blrb g d =
        Inr (((mg, member), snd (get_random_string 8 g)), d')
    \<and> mg = \<lparr>pk = Some (next_pk (pks (mapgroup d))), name = nm, slug = slugify nm,
             owner = user_pk u, blurb = blrb,
             permission_group = Some (next_pk (map group_pk (auth_group d))), is_open = opn\<rparr>
    \<and> member = \<lparr>member_pk = Some (next_pk (List.map_filter member_pk (mapgroupmember d))),
                 user = user_pk u, map_group = next_pk (pks (mapgroup d)),
                 date_joined = Some now, is_manager = True, show_real_name = False\<rparr>
    \<and> mapgroup d' = mapgroup d @ [mg]
    \<and> mapgroupmember d' = mapgroupmember d @ [member]
    \<and> auth_group d' = auth_group d @
          [\<lparr>group_pk = next_pk (map group_pk (auth_group d)),
            group_name = take 72 (slugify nm) @ fst (get_random_string 8 g)\<rparr>]"
proof -
  define pgname where "pgname = take 72 (slugify nm) @ fst (get_random_string 8 g)"
  define rest where "rest = snd (get_random_string 8 g)"
  define kp where "kp = next_pk (map group_pk (auth_group d))"
  define kg where "kg = next_pk (pks (mapgroup d))"
  define km where "km = next_pk (List.map_filter member_pk (mapgroupmember d))"
  define pg where "pg = \<lparr>group_pk = kp, group_name = pgname\<rparr>"
  define da where "da = d\<lparr>auth_group := auth_group d @ [pg]\<rparr>"
  define db where "db = enable_sharing pg da"
  define mg where "mg = \<lparr>pk = Some kg, name = nm, slug = slugify nm, owner = user_pk u,
                         blurb = blrb, permission_group = Some kp, is_open = opn\<rparr>"
  define dc where "dc = db\<lparr>mapgroup := mapgroup db @ [mg]\<rparr>"
  define dd where "dd = groups_add u pg dc"
  define mem where "mem = \<lparr>member_pk = Some km, user = user_pk u, map_group = kg,
                           date_joined = Some now, is_manager = True, show_real_name = False\<rparr>"
  define de where "de = dd\<lparr>mapgroupmember := mapgroupmember dd @ [mem]\<rparr>"
  have nm: "permission_group_name slugify
              \<lparr>pk = None, name = nm, slug = [], owner = user_pk u, blurb = blrb,
               permission_group = None, is_open = opn\<rparr> g = (pgname, rest)"
    by (simp add: permission_group_name_pair pgname_def rest_def)
  have c1: "Group_objects_create pgname d = Inr (pg, da)"
    using Group_objects_create_ok [OF free] by (simp add: pgname_def pg_def da_def kp_def)
  have kpg: "group_pk pg = kp" by (simp add: pg_def)
  have tb: "mapgroup db = mapgroup d" "mapgroupmember db = mapgroupmember d"
    "auth_group db = auth_group d @ [pg]"
    by (simp_all add: db_def da_def enable_sharing_def)
  have nopg: "\<forall>r \<in> set (mapgroup db). permission_group r \<noteq> Some kp"
  proof
    fix r assume "r \<in> set (mapgroup db)"
    then have "r \<in> set (mapgroup d)" using tb by simp
    then obtain k where k: "k \<in> set (map group_pk (auth_group d))" "permission_group r = Some k"
      using fk unfolding foreign_keys_def by blast
    then have "k \<noteq> kp"
      unfolding kp_def using next_pk_fresh [of "map group_pk (auth_group d)"] by metis
    then show "permission_group r \<noteq> Some kp"
      using k(2) by simp
  qed
  have c2: "save slugify \<lparr>pk = None, name = nm, slug = [], owner = user_pk u, blurb = blrb,
               permission_group = Some kp, is_open = opn\<rparr> db = Inr (mg, dc)"
    using save_insert [of "\<lparr>pk = None, name = nm, slug = [], owner = user_pk u, blurb = blrb,
               permission_group = Some kp, is_open = opn\<rparr>" kp db slugify] nopg
    by (simp add: mg_def dc_def kg_def tb)
  have td: "mapgroupmember dd = mapgroupmember d" "mapgroup dd = mapgroup d @ [mg]"
    "auth_group dd = auth_group d @ [pg]"
    by (simp_all add: dd_def dc_def tb groups_add_def)
  have pkmg: "pk mg = Some kg" by (simp add: mg_def)
  have nomem: "\<forall>r \<in> set (mapgroupmember dd). \<not> (user r = user_pk u \<and> map_group r = kg)"
  proof
    fix r assume "r \<in> set (mapgroupmember dd)"
    then have "r \<in> set (mapgroupmember d)" using td by simp
    then have "map_group r \<in> set (pks (mapgroup d))"
      using fk unfolding foreign_keys_def by blast
    then have "map_group r \<noteq> kg"
      unfolding kg_def using next_pk_fresh [of "pks (mapgroup d)"] by metis
    then show "\<not> (user r = user_pk u \<and> map_group r = kg)"
      by simp
  qed
  have c3: "MapGroupMember_save now
              \<lparr>member_pk = None, user = user_pk u, map_group = kg, date_joined = None,
               is_manager = True, show_real_name = False\<rparr> dd = Inr (mem, de)"
    using MapGroupMember_save_insert [of "\<lparr>member_pk = None, user = user_pk u, map_group = kg,
               date_joined = None, is_manager = True, show_real_name = False\<rparr>" dd now] nomem
    by (simp add: mem_def de_def km_def td)
  have res: "create slugify now nm (AuthUser u) opn blrb g d = Inr (((mg, mem), rest), de)"
    unfolding create_def
    by (simp add: nm c1 kpg db_def [symmetric] c2 dd_def [symmetric] pkmg c3)
  have "mapgroup de = mapgroup d @ [mg]" "mapgroupmember de = mapgroupmember d @ [mem]"
    "auth_group de = auth_group d @ [pg]"
    by (simp_all add: de_def td)
  then show ?thesis
    using res unfolding mg_def mem_def pg_def kp_def kg_def km_def pgname_def rest_def
    by blast
qed


subsection \<open>Renaming\<close>

lemma slugify_ascii_examples:
  "slugify_ascii ''a!'' = ''a''" "slugify_ascii ''B'' = ''b''" "slugify_ascii ''A'' = ''a''"
  "slugify_ascii ''New Name'' = ''new-name''" "slugify_ascii ''New Group'' = ''new-group''"
  by code_simp+

lemma rng0_suffix: "fst (get_random_string 8 rng0) = ''aaaaaaaa''"
  by (simp add: get_random_string_def rng0_def allowed_chars_def upt_rec)

lemma sample_db_tables:
  "mapgroup sample_db = [group_a, group_b, group_c, group_d]"
  "auth_group sample_db = [\<lparr>group_pk = 1, group_name = ''aaaaaaaaa''\<rparr>,
                     \<lparr>group_pk = 2, group_name = ''baaaaaaaa''\<rparr>,
                     \<lparr>group_pk = 3, group_name = ''cXk29dLmQ''\<rparr>,
                     \<lparr>group_pk = 4, group_name = ''dP07ssRtw''\<rparr>]"
  "mapgroupmember sample_db = [member_alice_a, member_bob_a]"
  by (simp_all add: sample_db_def)

lemma sample_group_fields:
  "pk group_a = Some 1" "pk group_b = Some 2" "pk group_c = Some 3" "pk group_d = Some 4"
  "permission_group group_a = Some 1" "permission_group group_b = Some 2"
  "permission_group group_c = Some 3" "permission_group group_d = Some 4"
  by (simp_all add: group_a_def group_b_def group_c_def group_d_def)

lemma sample_db_foreign_keys: "foreign_keys sample_db"
  by (simp add: foreign_keys_def sample_db_tables sample_group_fields pks_def
        member_alice_a_def member_bob_a_def)

lemma rename_a_hyps:
  "pk group_a = Some 1" "permission_group group_a = Some 1"
  "Some 1 \<in> set (map pk (mapgroup sample_db))"
  "\<forall>r \<in> set (mapgroup sample_db). pk r \<noteq> Some 1 \<longrightarrow> permission_group r \<noteq> Some 1"
  "1 \<in> set (map group_pk (auth_group sample_db))"
  by (simp_all add: sample_db_tables sample_group_fields)

text \<open>
  Claim C5, as the code has it. For a stored group whose permission group exists, and a
  new name whose derived permission-group name no other permission group holds, \<open>rename\<close>
  returns; it sets the group's name to the new name and its slug to the slugified new name,
  and it sets the name of the linked permission group to the slug cut to 72 characters
  followed by 8 newly drawn characters. Nothing compares that name with the one held
  before.
\<close>

theorem rename_rederives_names:
  assumes "pk self = Some k" and "permission_group self = Some p"
    and "Some k \<in> set (map pk (mapgroup d))"
    and "\<forall>r \<in> set (mapgroup d). pk r \<noteq> Some k \<longrightarrow> permission_group r \<noteq> Some p"
    and "p \<in> set (map group_pk (auth_group d))"
    and "\<forall>r \<in> set (auth_group d). group_pk r \<noteq> p \<longrightarrow>
                group_name r \<noteq> take 72 (slugify new_name) @ fst (get_random_string 8 g)"
  shows "\<exists>d'. rename slugify new_name self g d =
           Inr ((self\<lparr>name := new_name, slug := slugify new_name\<rparr>,
                 snd (get_random_string 8 g)), d')
        \<and> mapgroup d' =
            map (\<lambda>r. if pk r = Some k then self\<lparr>name := new_name, slug := slugify new_name\<rparr>
                      else r) (mapgroup d)
        \<and> auth_group d' =
            map (\<lambda>r. if group_pk r = p
                      then r\<lparr>group_name :=
                             take 72 (slugify new_name) @ fst (get_random_string 8 g)\<rparr>
                      else r) (auth_group d)"
  using rename_ok [where slugify = slugify and new_name = new_name, OF assms] by simp

theorem rename_rederives_names_witness:
  "pk group_a = Some 1 \<and> permission_group group_a = Some 1
   \<and> Some 1 \<in> set (map pk (mapgroup sample_db))
   \<and> filter (\<lambda>r. pk r \<noteq> Some 1 \<and> permission_group r = Some 1) (mapgroup sample_db) = []
   \<and> 1 \<in> set (map group_pk (auth_group sample_db))
   \<and> filter (\<lambda>r. group_pk r \<noteq> 1 \<and>
               group_name r = take 72 (slugify_ascii ''New Name'') @ fst (get_random_string 8 rng0))
         (auth_group sample_db) = []
   \<and> raised (rename slugify_ascii ''New Name'' group_a rng0 sample_db) = None
   \<and> map slug (mapgroup (final_db (rename slugify_ascii ''New Name'' group_a rng0 sample_db))) =
       [''new-name'', ''b'', ''c'', ''d'']
   \<and> map group_name (auth_group (final_db (rename slugify_ascii ''New Name'' group_a rng0 sample_db))) =
       [''new-nameaaaaaaaa'', ''baaaaaaaa'', ''cXk29dLmQ'', ''dP07ssRtw'']"
proof -
  have free: "\<forall>r \<in> set (auth_group sample_db). group_pk r \<noteq> 1 \<longrightarrow>
         group_name r \<noteq> take 72 (slugify_ascii ''New Name'') @ fst (get_random_string 8 rng0)"
    by (simp add: sample_db_tables slugify_ascii_examples rng0_suffix)
  obtain d' where d': "rename slugify_ascii ''New Name'' group_a rng0 sample_db =
           Inr ((group_a\<lparr>name := ''New Name'', slug := slugify_ascii ''New Name''\<rparr>,
                 snd (get_random_string 8 rng0)), d')"
     "mapgroup d' =
            map (\<lambda>r. if pk r = Some 1
                      then group_a\<lparr>name := ''New Name'', slug := slugify_ascii ''New Name''\<rparr>
                      else r) (mapgroup sample_db)"
     "auth_group d' =
            map (\<lambda>r. if group_pk r = 1
                      then r\<lparr>group_name :=
                             take 72 (slugify_ascii ''New Name'') @ fst (get_random_string 8 rng0)\<rparr>
                      else r) (auth_group sample_db)"
    using rename_rederives_names [where slugify = slugify_ascii and new_name = "''New Name''",
        OF rename_a_hyps free] by blast
  have r: "raised (rename slugify_ascii ''New Name'' group_a rng0 sample_db) = None"
    "final_db (rename slugify_ascii ''New Name'' group_a rng0 sample_db) = d'"
    by (simp_all add: d'(1) raised_def final_db_def)
  have m: "map slug (mapgroup d') = [''new-name'', ''b'', ''c'', ''d'']"
    unfolding d'(2) by (simp add: sample_db_tables sample_group_fields slugify_ascii_examples)
       (simp add: group_b_def group_c_def group_d_def)
  have a: "map group_name (auth_group d') =
       [''new-nameaaaaaaaa'', ''baaaaaaaa'', ''cXk29dLmQ'', ''dP07ssRtw'']"
    unfolding d'(3) by (simp add: sample_db_tables slugify_ascii_examples rng0_suffix)
  have f1: "filter (\<lambda>r. pk r \<noteq> Some 1 \<and> permission_group r = Some 1) (mapgroup sample_db) = []"
    by (simp add: sample_db_tables sample_group_fields)
  have f2: "filter (\<lambda>r. group_pk r \<noteq> 1 \<and>
               group_name r = take 72 (slugify_ascii ''New Name'') @ fst (get_random_string 8 rng0))
         (auth_group sample_db) = []"
    by (simp add: sample_db_tables slugify_ascii_examples rng0_suffix)
  show ?thesis using rename_a_hyps(1,2,3,5) f1 f2 r m a by simp
qed

text \<open>
  The claim as the spec states it fails: group A, whose permission group is named
  \<open>aaaaaaaaa\<close>, renamed to \<open>a!\<close> while the random source draws the same eight
  characters again, keeps the permission-group name it had.
\<close>

theorem rename_same_permission_name:
  "raised (rename slugify_ascii ''a!'' group_a rng0 sample_db) = None
   \<and> name group_a \<noteq> ''a!''
   \<and> auth_group (final_db (rename slugify_ascii ''a!'' group_a rng0 sample_db)) =
       auth_group sample_db"
proof -
  have free: "\<forall>r \<in> set (auth_group sample_db). group_pk r \<noteq> 1 \<longrightarrow>
         group_name r \<noteq> take 72 (slugify_ascii ''a!'') @ fst (get_random_string 8 rng0)"
    by (simp add: sample_db_tables slugify_ascii_examples rng0_suffix)
  have "rename slugify_ascii ''a!'' group_a rng0 sample_db =
     Inr ((group_a\<lparr>name := ''a!'', slug := slugify_ascii ''a!''\<rparr>, snd (get_random_string 8 rng0)),
          sample_db\<lparr>mapgroup :=
               map (\<lambda>r. if pk r = Some 1 then group_a\<lparr>name := ''a!'', slug := slugify_ascii ''a!''\<rparr>
                         else r) (mapgroup sample_db),
            auth_group :=
               map (\<lambda>r. if group_pk r = 1
                         then r\<lparr>group_name :=
                                take 72 (slugify_ascii ''a!'') @ fst (get_random_string 8 rng0)\<rparr>
                         else r) (auth_group sample_db)\<rparr>)"
    by (rule rename_ok [where slugify = slugify_ascii and new_name = "''a!''",
          OF rename_a_hyps free])
  then show ?thesis
    by (simp add: raised_def final_db_def sample_db_tables slugify_ascii_examples rng0_suffix
          group_a_def)
qed

subsection \<open>The frame of a rename, and what a failure leaves\<close>















lemma has_member_new_row:
  assumes "user_is_active u" and "pk mg = Some k" and "m \<in> set (mapgroupmember d)"
    and "user m = user_pk u" and "map_group m = k"
  shows "has_member mg (AuthUser u) d"
  using assms by (auto simp: has_member_def mapgroupmember_set_def filter_empty_conv)

text \<open>
  Claim C6, as the code has it. In a database whose foreign keys are intact, for an
  active owner and a name whose derived permission-group name is free, \<open>create\<close>
  returns a group and a membership; the membership is stored, belongs to the owner and
  the new group and has \<open>is_manager\<close> set, and \<open>has_member\<close> of the new group and the
  owner is true.
\<close>

theorem create_active_owner_is_member:
  assumes "foreign_keys d"
    and "take 72 (slugify nm) @ fst (get_random_string 8 g) \<notin> set (map group_name (auth_group d))"
    and "user_is_active u"
  shows "\<exists>mg member g' d'.
      create slugify now nm (AuthUser u) opn blrb g d = Inr (((mg, member), g'), d')
    \<and> has_member mg (AuthUser u) d'
    \<and> is_manager member = True
    \<and> member \<in> set (mapgroupmember d') \<and> user member = user_pk u
    \<and> Some (map_group member) = pk mg \<and> mg \<in> set (mapgroup d')
    \<and> name mg = nm \<and> owner mg = user_pk u"
proof -
  obtain mg member d' where c:
    "create slugify now nm (AuthUser u) opn blrb g d =
        Inr (((mg, member), snd (get_random_string 8 g)), d')"
    "mg = \<lparr>pk = Some (next_pk (pks (mapgroup d))), name = nm, slug = slugify nm,
             owner = user_pk u, blurb = blrb,
             permission_group = Some (next_pk (map group_pk (auth_group d))), is_open = opn\<rparr>"
    "member = \<lparr>member_pk = Some (next_pk (List.map_filter member_pk (mapgroupmember d))),
                 user = user_pk u, map_group = next_pk (pks (mapgroup d)),
                 date_joined = Some now, is_manager = True, show_real_name = False\<rparr>"
    "mapgroup d' = mapgroup d @ [mg]"
    "mapgroupmember d' = mapgroupmember d @ [member]"
    using create_ok [where slugify = slugify and nm = nm, OF assms(1,2), of now u opn blrb]
    by blast
  have f: "pk mg = Some (next_pk (pks (mapgroup d)))" "name mg = nm" "owner mg = user_pk u"
    using c(2) by simp_all
  have m: "user member = user_pk u" "map_group member = next_pk (pks (mapgroup d))"
    "is_manager member = True"
    using c(3) by simp_all
  have inm: "member \<in> set (mapgroupmember d')" and ing: "mg \<in> set (mapgroup d')"
    using c(4,5) by simp_all
  have hm: "has_member mg (AuthUser u) d'"
    by (rule has_member_new_row [OF assms(3) f(1) inm m(1,2)])
  show ?thesis
    using c(1) hm m inm ing f by (intro exI [of _ mg] exI [of _ member] exI [of _ d'] exI) simp
qed

lemma sample_free_name:
  "take 72 (slugify_ascii ''New Group'') @ fst (get_random_string 8 rng0)
     \<notin> set (map group_name (auth_group sample_db))"
  by (simp add: slugify_ascii_examples rng0_suffix sample_db_tables)

theorem create_active_owner_is_member_witness:
  "foreign_keys sample_db
   \<and> take 72 (slugify_ascii ''New Group'') @ fst (get_random_string 8 rng0)
       \<notin> set (map group_name (auth_group sample_db))
   \<and> user_is_active alice
   \<and> has_member_after_create (AuthUser alice)
       (create slugify_ascii 400 ''New Group'' (AuthUser alice) False [] rng0 sample_db) = Some True
   \<and> manager_after_create
       (create slugify_ascii 400 ''New Group'' (AuthUser alice) False [] rng0 sample_db) = Some True"
proof -
  have act: "user_is_active alice" by (simp add: alice_def)
  obtain mg member g' d' where
    "create slugify_ascii 400 ''New Group'' (AuthUser alice) False [] rng0 sample_db =
       Inr (((mg, member), g'), d')"
    "has_member mg (AuthUser alice) d'" "is_manager member = True"
    using create_active_owner_is_member [where slugify = slugify_ascii and nm = "''New Group''",
        OF sample_db_foreign_keys sample_free_name act, of 400 False "[]"]
    by blast
  then show ?thesis
    using sample_db_foreign_keys sample_free_name act
    by (simp add: has_member_after_create_def manager_after_create_def)
qed

text \<open>
  The claim as the spec states it fails for an owner who exists and is inactive:
  \<open>create\<close> returns a manager membership for bob, and \<open>has_member\<close> of the new group
  and bob is false.
\<close>

theorem create_inactive_owner_not_member:
  "has_member_after_create (AuthUser bob)
       (create slugify_ascii 400 ''New Group'' (AuthUser bob) False [] rng0 sample_db) = Some False
   \<and> manager_after_create
       (create slugify_ascii 400 ''New Group'' (AuthUser bob) False [] rng0 sample_db) = Some True"
proof -
  obtain mg member d' where
    "create slugify_ascii 400 ''New Group'' (AuthUser bob) False [] rng0 sample_db =
       Inr (((mg, member), snd (get_random_string 8 rng0)), d')"
    "member = \<lparr>member_pk = Some (next_pk (List.map_filter member_pk (mapgroupmember sample_db))),
                 user = user_pk bob, map_group = next_pk (pks (mapgroup sample_db)),
                 date_joined = Some 400, is_manager = True, show_real_name = False\<rparr>"
    using create_ok [where slugify = slugify_ascii and nm = "''New Group''",
        OF sample_db_foreign_keys sample_free_name, of 400 bob False "[]"]
    by blast
  then show ?thesis
    by (simp add: has_member_after_create_def manager_after_create_def has_member_def bob_def)
qed

end
